theory Spec2Isabelle
  imports Complex_Main
begin

section \<open>Media Splitter: the split routine of the application component\<close>

text \<open>
  The program is a single React component whose only logic is the asynchronous routine
  \<open>splitMedia\<close>. The revision modelled here is the one with the three split modes
  (parts, size, time) and the two encoding modes (compatible, fast). The repository also
  holds two earlier revisions of the component, with parts mode and stream copy only (one of
  them with overlapping windows); they are not modelled.

  JavaScript numbers are modelled by exact numbers: durations and window bounds are
  \<open>real\<close>, the user settings and the part count are \<open>int\<close>, the loop counter and the
  file size are \<open>nat\<close>. The non-finite values of the source (\<open>NaN\<close>, \<open>Infinity\<close>) and
  the rounding of binary floating point in the window bounds are outside this model; every
  division below has a non-zero divisor whenever the settings respect the minimums the
  controls enforce.

  The one exception is the percentage in the status line. There \<open>Math.round\<close> turns a
  rounding error of the last binary digit into a different integer, so that expression is
  computed in double precision, as the source computes it.
\<close>

subsection \<open>Data\<close>

text \<open>\<open>splitMode\<close> is \<open>'parts'\<close>, \<open>'size'\<close> or \<open>'time'\<close>; \<open>encodingMode\<close> is
  \<open>'compatible'\<close> or \<open>'fast'\<close>.\<close>

datatype split_mode = PartsMode | SizeMode | TimeMode

datatype encoding_mode = Compatible | Fast

text \<open>The browser \<open>File\<close> object: \<open>file.name\<close>, \<open>file.size\<close>, \<open>file.type\<close>.\<close>

record media_file =
  file_name :: string
  file_size :: nat
  file_type :: string

text \<open>The component state that selects the split: all parameters are present at once,
  \<open>splitMode\<close> decides which one is read.\<close>

record settings =
  splitMode :: split_mode
  parts :: int
  splitSize :: int
  splitTime :: int
  encodingMode :: encoding_mode

text \<open>One iteration of the loop works on the window \<open>start\<close>, \<open>actualDuration\<close> of
  loop counter \<open>index\<close>.\<close>

record window =
  index :: nat
  start :: real
  actualDuration :: real

text \<open>An element of the argument array handed to the engine: a literal string, or
  \<open>x.toString()\<close> of a number \<open>x\<close>, kept as the number.\<close>

datatype arg = Str string | Num real

text \<open>\<open>new Blob([data.buffer], {type: file.type})\<close>; the object URL made from a blob is
  modelled by the blob it designates.\<close>

datatype 'd blob = Blob 'd string

record 'd artifact =
  art_name :: string
  art_url :: "'d blob"

text \<open>The status line. \<open>SplittingPart k n p\<close> is the template
  \<open>Splitting part ${k} of ${n}... (${p}%)\<close> with its three holes.\<close>

datatype status = NoStatus | ReadingMediaFile | AnalyzingDuration | SplittingPart nat int int | Done

text \<open>What the routine makes observable, in order: a status line, a value of the progress
  state, a command submitted to the engine.\<close>

datatype event = StatusEv status | ProgressEv int | ExecEv "arg list"

text \<open>
  The collaborators of \<open>splitMedia\<close>: \<open>fetchFile\<close>, the engine's \<open>writeFile\<close>,
  \<open>exec\<close> and \<open>readFile\<close> on the engine's file system \<open>'fs\<close>, and the metadata probe
  \<open>getDuration\<close>. A rejected promise is \<open>None\<close>. The value \<open>exec\<close> resolves to is
  discarded by the source and not modelled. The engine's own progress callback is
  registered outside \<open>splitMedia\<close> and is not part of the trace.
\<close>

record ('fs, 'd) env =
  fetchFile :: "media_file \<Rightarrow> 'd option"
  writeFile :: "string \<Rightarrow> 'd \<Rightarrow> 'fs \<Rightarrow> 'fs option"
  exec :: "arg list \<Rightarrow> 'fs \<Rightarrow> 'fs option"
  readFile :: "string \<Rightarrow> 'fs \<Rightarrow> 'd option"
  getDuration :: "media_file \<Rightarrow> real"

text \<open>The React state written by \<open>splitMedia\<close>, the engine's file system, and the history
  of observable events.\<close>

record ('fs, 'd) app =
  processing :: bool
  status :: status
  progress :: int
  resultFiles :: "'d artifact list"
  error :: string
  fs :: 'fs
  trace :: "event list"

text \<open>The outcome of a block that may raise: the state when it raised, or when it ended.\<close>

datatype 'a outcome = Threw 'a | Returned 'a

fun threw :: "'a outcome \<Rightarrow> bool" where
  "threw (Threw x) = True"
| "threw (Returned x) = False"

subsection \<open>Strings\<close>

text \<open>Decimal rendering of an integer, as a template literal renders an integral number
  below \<open>10^21\<close>.\<close>

fun toString_nat :: "nat \<Rightarrow> string" where
  "toString_nat n =
     (if n < 10 then [''0123456789'' ! n]
      else toString_nat (n div 10) @ [''0123456789'' ! (n mod 10)])"

definition toString :: "int \<Rightarrow> string" where
  "toString k = (if k < 0 then CHR ''-'' # toString_nat (nat (- k)) else toString_nat (nat k))"

text \<open>\<open>s.split(c)\<close> for a one-character separator: never empty.\<close>

fun js_split :: "char \<Rightarrow> string \<Rightarrow> string list" where
  "js_split c [] = [[]]"
| "js_split c (x # xs) =
     (if x = c then [] # js_split c xs
      else (case js_split c xs of [] \<Rightarrow> [[x]] | y # ys \<Rightarrow> (x # y) # ys))"

text \<open>\<open>xs.pop()\<close>: the last element, \<open>undefined\<close> on the empty array.\<close>

fun pop :: "string list \<Rightarrow> string option" where
  "pop [] = None"
| "pop [x] = Some x"
| "pop (x # y # ys) = pop (y # ys)"

text \<open>\<open>s.replace(pat, rep)\<close> with a string pattern: the first occurrence only. The
  replacement is the empty string in the source, so \<open>$\<close> patterns do not arise.\<close>

fun js_replace :: "string \<Rightarrow> string \<Rightarrow> string \<Rightarrow> string" where
  "js_replace pat rep [] = (if pat = [] then rep else [])"
| "js_replace pat rep (x # xs) =
     (if take (length pat) (x # xs) = pat then rep @ drop (length pat) (x # xs)
      else x # js_replace pat rep xs)"

text \<open>\<open>const fileExt = fileName.split('.').pop()\<close>\<close>

definition fileExt :: "string \<Rightarrow> string" where
  "fileExt fileName =
     (case pop (js_split CHR ''.'' fileName) of None \<Rightarrow> ''undefined'' | Some e \<Rightarrow> e)"

text \<open>\<open>const baseName = fileName.replace(`.${fileExt}`, '')\<close>\<close>

definition baseName :: "string \<Rightarrow> string" where
  "baseName fileName = js_replace (''.'' @ fileExt fileName) '''' fileName"

text \<open>\<open>const outputName = `${i + 1}_${baseName}_${i + 1}.${fileExt}`\<close>\<close>

definition outputName :: "string \<Rightarrow> nat \<Rightarrow> string" where
  "outputName fileName i =
     toString_nat (i + 1) @ ''_'' @ baseName fileName @ ''_'' @ toString_nat (i + 1) @
     ''.'' @ fileExt fileName"

definition status_text :: "status \<Rightarrow> string" where
  "status_text s =
     (case s of
        NoStatus \<Rightarrow> ''''
      | ReadingMediaFile \<Rightarrow> ''Reading media file...''
      | AnalyzingDuration \<Rightarrow> ''Analyzing duration...''
      | SplittingPart k n p \<Rightarrow>
          ''Splitting part '' @ toString_nat k @ '' of '' @ toString n @ ''... ('' @
          toString p @ ''%)''
      | Done \<Rightarrow> ''Done!'')"

subsection \<open>Planning the windows\<close>

text \<open>The part count and the part duration, by split mode: \<open>currentParts\<close> and
  \<open>currentPartDuration\<close> after the three-way conditional.\<close>

definition planParams :: "settings \<Rightarrow> media_file \<Rightarrow> real \<Rightarrow> int \<times> real" where
  "planParams s f duration =
     (case splitMode s of
        SizeMode \<Rightarrow>
          (let totalSizeMB = real (file_size f) / (1024 * 1024);
               currentParts = \<lceil>totalSizeMB / real_of_int (splitSize s)\<rceil>;
               currentParts = (if currentParts < 1 then 1 else currentParts)
           in (currentParts, duration / real_of_int currentParts))
      | TimeMode \<Rightarrow>
          (let currentParts = \<lceil>duration / real_of_int (splitTime s)\<rceil>;
               currentParts = (if currentParts < 1 then 1 else currentParts)
           in (currentParts, real_of_int (splitTime s)))
      | PartsMode \<Rightarrow> (parts s, duration / real_of_int (parts s)))"

text \<open>The bounds computed at the head of iteration \<open>i\<close>: \<open>start\<close>, \<open>end\<close> clamped to
  the duration, and their difference.\<close>

definition windowAt :: "real \<Rightarrow> real \<Rightarrow> nat \<Rightarrow> window" where
  "windowAt currentPartDuration duration i =
     (let start = real i * currentPartDuration;
          end = real (i + 1) * currentPartDuration;
          end = (if end > duration then duration else end)
      in \<lparr>index = i, start = start, actualDuration = end - start\<rparr>)"

text \<open>The loop with the engine left out: the windows it works on, up to the first window
  of non-positive duration, where the source leaves the loop.\<close>

function planLoop :: "nat \<Rightarrow> int \<Rightarrow> real \<Rightarrow> real \<Rightarrow> window list" where
  "planLoop i currentParts currentPartDuration duration =
     (if int i < currentParts then
        (let w = windowAt currentPartDuration duration i
         in if actualDuration w \<le> 0 then []
            else w # planLoop (i + 1) currentParts currentPartDuration duration)
      else [])"
  by pat_completeness auto
termination
  by (relation "measure (\<lambda>(i, currentParts, _, _). nat (currentParts - int i))") auto

definition plan :: "settings \<Rightarrow> media_file \<Rightarrow> real \<Rightarrow> window list" where
  "plan s f duration =
     (case planParams s f duration of
        (currentParts, currentPartDuration) \<Rightarrow>
          planLoop 0 currentParts currentPartDuration duration)"

text \<open>The minimums of the controls: the part count never goes below 2, the target size never
  below 1 MB, the target time never below 10 s.\<close>

definition valid_spec :: "settings \<Rightarrow> bool" where
  "valid_spec s =
     (case splitMode s of
        PartsMode \<Rightarrow> 2 \<le> parts s
      | SizeMode \<Rightarrow> 1 \<le> splitSize s
      | TimeMode \<Rightarrow> 10 \<le> splitTime s)"

text \<open>The part count of size mode in the words of the specification: the size in MB over
  the target, rounded up, and at least 1.\<close>

definition spec_estimatedParts :: "nat \<Rightarrow> int \<Rightarrow> int" where
  "spec_estimatedParts totalSizeBytes targetMB =
     max 1 \<lceil>(real totalSizeBytes / (1024 * 1024)) / real_of_int targetMB\<rceil>"

subsection \<open>The command for one window\<close>

definition ffmpegArgs :: "encoding_mode \<Rightarrow> window \<Rightarrow> string \<Rightarrow> arg list" where
  "ffmpegArgs mode w outName =
     [Str ''-ss'', Num (start w), Str ''-i'', Str ''input'', Str ''-t'', Num (actualDuration w)] @
     (if mode = Fast then
        [Str ''-c'', Str ''copy'', Str ''-avoid_negative_ts'', Str ''make_zero'',
         Str ''-movflags'', Str ''+faststart'']
      else
        [Str ''-c:v'', Str ''libx264'', Str ''-preset'', Str ''fast'', Str ''-crf'', Str ''18'',
         Str ''-c:a'', Str ''aac'', Str ''-b:a'', Str ''192k'',
         Str ''-movflags'', Str ''+faststart'', Str ''-avoid_negative_ts'', Str ''make_zero'']) @
     [Str outName]"

subsection \<open>The routine\<close>

definition setProcessing :: "bool \<Rightarrow> ('fs, 'd) app \<Rightarrow> ('fs, 'd) app" where
  "setProcessing b st = st\<lparr>processing := b\<rparr>"

definition setError :: "string \<Rightarrow> ('fs, 'd) app \<Rightarrow> ('fs, 'd) app" where
  "setError e st = st\<lparr>error := e\<rparr>"

definition setResultFiles :: "'d artifact list \<Rightarrow> ('fs, 'd) app \<Rightarrow> ('fs, 'd) app" where
  "setResultFiles xs st = st\<lparr>resultFiles := xs\<rparr>"

definition setStatus :: "status \<Rightarrow> ('fs, 'd) app \<Rightarrow> ('fs, 'd) app" where
  "setStatus x st = st\<lparr>status := x, trace := trace st @ [StatusEv x]\<rparr>"

definition setProgress :: "int \<Rightarrow> ('fs, 'd) app \<Rightarrow> ('fs, 'd) app" where
  "setProgress p st = st\<lparr>progress := p, trace := trace st @ [ProgressEv p]\<rparr>"

text \<open>
  Double precision, for the quotient \<open>a / b\<close> of two natural numbers with
  \<open>a / b < 2^53\<close>: a double is a 53-bit significand \<open>m\<close> times a power of two, here
  \<open>m / 2^s\<close>. \<open>scale a b s\<close> is the least exponent from \<open>s\<close> on that brings the quotient
  up to \<open>2^52\<close>; \<open>nearestDouble a b\<close> is the double nearest to \<open>a / b\<close>, a tie going to
  the even significand, as IEEE 754 division and multiplication round. Exponent overflow and
  subnormal numbers do not arise for the quotients of the status line.
\<close>

function scale :: "nat \<Rightarrow> nat \<Rightarrow> nat \<Rightarrow> nat" where
  "scale a b s = (if a = 0 \<or> b * 2 ^ 52 \<le> a * 2 ^ s then s else scale a b (Suc s))"
  by pat_completeness auto
termination
proof (relation "measure (\<lambda>(a, b, s). 52 + b - s)")
  show "wf (measure (\<lambda>(a, b, s). 52 + b - s))"
    by simp
next
  fix a b s :: nat
  assume stay: "\<not> (a = 0 \<or> b * 2 ^ 52 \<le> a * 2 ^ s)"
  have "s < 52 + b"
  proof (rule ccontr)
    assume "\<not> s < 52 + b"
    then have "(2::nat) ^ (52 + b) \<le> 2 ^ s"
      by (intro power_increasing) simp_all
    moreover have "b * 2 ^ 52 \<le> (2::nat) ^ (52 + b)"
      by (simp add: power_add mult.commute less_imp_le)
    moreover have "(2::nat) ^ s \<le> a * 2 ^ s"
      using stay by simp
    ultimately show False
      using stay by linarith
  qed
  then show "((a, b, Suc s), (a, b, s)) \<in> measure (\<lambda>(a, b, s). 52 + b - s)"
    by simp
qed

definition nearestDouble :: "nat \<Rightarrow> nat \<Rightarrow> nat \<times> nat" where
  "nearestDouble a b =
     (let s = scale a b 0;
          q = a * 2 ^ s div b;
          r = a * 2 ^ s mod b;
          m = (if 2 * r < b then q else if b < 2 * r then q + 1
               else if even q then q else q + 1)
      in (m, s))"

text \<open>\<open>Math.round((i / currentParts) * 100)\<close>: the quotient rounded to a double, the
  product with 100 rounded to a double, and \<open>Math.round\<close> of that double, which is the
  nearest integer, a tie going up.\<close>

definition percentAt :: "nat \<Rightarrow> int \<Rightarrow> int" where
  "percentAt i currentParts =
     (case nearestDouble i (nat currentParts) of
        (m1, s1) \<Rightarrow>
          (case nearestDouble (m1 * 100) (2 ^ s1) of
             (m2, s2) \<Rightarrow> round (real m2 / 2 ^ s2)))"

text \<open>The record that a command went to the engine, made before the engine answers.\<close>

definition submitted :: "arg list \<Rightarrow> ('fs, 'd) app \<Rightarrow> ('fs, 'd) app" where
  "submitted args st = st\<lparr>trace := trace st @ [ExecEv args]\<rparr>"

text \<open>The \<open>for\<close> loop: \<open>outputs\<close> is the local array of artifacts made so far. A rejected
  \<open>exec\<close> or \<open>readFile\<close> leaves the loop by the exception.\<close>

function splitLoop ::
  "('fs, 'd) env \<Rightarrow> encoding_mode \<Rightarrow> media_file \<Rightarrow> real \<Rightarrow> int \<Rightarrow> real \<Rightarrow>
   nat \<Rightarrow> 'd artifact list \<Rightarrow> ('fs, 'd) app \<Rightarrow> ('d artifact list \<times> ('fs, 'd) app) outcome" where
  "splitLoop E mode f duration currentParts currentPartDuration i outputs st =
     (if int i < currentParts then
        (let w = windowAt currentPartDuration duration i
         in if actualDuration w \<le> 0 then Returned (outputs, st)
            else
              (let outName = outputName (file_name f) i;
                   st1 = setStatus (SplittingPart (i + 1) currentParts
                           (percentAt i currentParts)) st;
                   args = ffmpegArgs mode w outName;
                   st2 = submitted args st1
               in case exec E args (fs st2) of
                    None \<Rightarrow> Threw (outputs, st2)
                  | Some fs' \<Rightarrow>
                      (case readFile E outName fs' of
                         None \<Rightarrow> Threw (outputs, st2\<lparr>fs := fs'\<rparr>)
                       | Some data \<Rightarrow>
                           splitLoop E mode f duration currentParts currentPartDuration (i + 1)
                             (outputs @ [\<lparr>art_name = outName, art_url = Blob data (file_type f)\<rparr>])
                             (st2\<lparr>fs := fs'\<rparr>))))
      else Returned (outputs, st))"
  by pat_completeness auto
termination
  by (relation "measure (\<lambda>(E, mode, f, duration, currentParts, pd, i, outputs, st).
        nat (currentParts - int i))") auto

text \<open>The body of the \<open>try\<close> block.\<close>

definition tryBody ::
  "('fs, 'd) env \<Rightarrow> settings \<Rightarrow> media_file \<Rightarrow> ('fs, 'd) app \<Rightarrow> ('fs, 'd) app outcome" where
  "tryBody E s f st =
     (let st1 = setStatus ReadingMediaFile st
      in case fetchFile E f of
           None \<Rightarrow> Threw st1
         | Some data \<Rightarrow>
             (case writeFile E ''input'' data (fs st1) of
                None \<Rightarrow> Threw st1
              | Some fs' \<Rightarrow>
                  (let st2 = setStatus AnalyzingDuration (st1\<lparr>fs := fs'\<rparr>);
                       duration = getDuration E f
                   in case planParams s f duration of
                        (currentParts, currentPartDuration) \<Rightarrow>
                          (case splitLoop E (encodingMode s) f duration currentParts
                                  currentPartDuration 0 [] st2 of
                             Threw (outputs, st3) \<Rightarrow> Threw st3
                           | Returned (outputs, st3) \<Rightarrow>
                               Returned (setProgress 100 (setStatus Done
                                 (setResultFiles outputs st3)))))))"

text \<open>\<open>splitMedia\<close>: nothing without a file; otherwise the three resets, the \<open>try\<close> block,
  the \<open>catch\<close> clause with its one message, and the \<open>finally\<close> clause.\<close>

definition splitMedia ::
  "('fs, 'd) env \<Rightarrow> settings \<Rightarrow> media_file option \<Rightarrow> ('fs, 'd) app \<Rightarrow> ('fs, 'd) app" where
  "splitMedia E s file st =
     (case file of
        None \<Rightarrow> st
      | Some f \<Rightarrow>
          (let st0 = setResultFiles [] (setError '''' (setProcessing True st))
           in setProcessing False
                (case tryBody E s f st0 of
                   Threw st' \<Rightarrow>
                     setError ''An error occurred. Please check if the file format is valid.'' st'
                 | Returned st' \<Rightarrow> st')))"

subsection \<open>Reading the trace\<close>

text \<open>The commands submitted to the engine, in order.\<close>

fun execCalls :: "event list \<Rightarrow> arg list list" where
  "execCalls [] = []"
| "execCalls (ExecEv args # es) = args # execCalls es"
| "execCalls (_ # es) = execCalls es"

text \<open>The percentages the routine reports, in order: the one in each
  \<open>Splitting part\<close> status line and each value given to the progress state.\<close>

fun reportedProgress :: "event list \<Rightarrow> int list" where
  "reportedProgress [] = []"
| "reportedProgress (StatusEv (SplittingPart k n p) # es) = p # reportedProgress es"
| "reportedProgress (ProgressEv p # es) = p # reportedProgress es"
| "reportedProgress (_ # es) = reportedProgress es"

subsection \<open>Concrete inputs\<close>

definition initialApp :: "(nat, nat) app" where
  "initialApp = \<lparr>processing = False, status = NoStatus, progress = 0, resultFiles = [],
                  error = '''', fs = 0, trace = []\<rparr>"

text \<open>An environment whose file system is the number of commands run so far; the probe
  answers \<open>d\<close>; the command number \<open>failAt\<close> is rejected (none when \<open>failAt = 0\<close>).\<close>

definition countingEnv :: "real \<Rightarrow> nat \<Rightarrow> (nat, nat) env" where
  "countingEnv d failAt =
     \<lparr>fetchFile = (\<lambda>f. Some (file_size f)),
      writeFile = (\<lambda>path data n. Some n),
      exec = (\<lambda>args n. if Suc n = failAt then None else Some (Suc n)),
      readFile = (\<lambda>path n. Some n),
      getDuration = (\<lambda>f. d)\<rparr>"

definition clip :: media_file where
  "clip = \<lparr>file_name = ''clip.mp4'', file_size = 50 * 1024 * 1024, file_type = ''video/mp4''\<rparr>"

definition noext :: media_file where
  "noext = \<lparr>file_name = ''clip'', file_size = 1000, file_type = ''''\<rparr>"

definition regular :: media_file where
  "regular = \<lparr>file_name = ''talk.final.mov'', file_size = 1000, file_type = ''video/quicktime''\<rparr>"

definition dotted :: media_file where
  "dotted = \<lparr>file_name = ''my.mp4.video.mp4'', file_size = 1000, file_type = ''video/mp4''\<rparr>"

text \<open>The initial settings of the component.\<close>

definition defaults :: settings where
  "defaults = \<lparr>splitMode = PartsMode, parts = 2, splitSize = 10, splitTime = 60,
               encodingMode = Compatible\<rparr>"


section \<open>Properties of the planning step\<close>

text \<open>The two recursive loops are unfolded one iteration at a time, by the lemmas below.\<close>

declare planLoop.simps [simp del]
declare splitLoop.simps [simp del]

lemma planLoop_stop:
  "\<not> (int i < cp \<and> 0 < actualDuration (windowAt pd d i)) \<Longrightarrow> planLoop i cp pd d = []"
  by (subst planLoop.simps) (auto simp: Let_def)

lemma planLoop_step:
  "int i < cp \<Longrightarrow> 0 < actualDuration (windowAt pd d i) \<Longrightarrow>
   planLoop i cp pd d = windowAt pd d i # planLoop (Suc i) cp pd d"
  by (subst planLoop.simps) (simp add: Let_def)

text \<open>The windows carry the loop counter, counting up from where the loop starts.\<close>

lemma planLoop_index:
  "map index (planLoop i cp pd d) = [i..<i + length (planLoop i cp pd d)]"
proof (induction i cp pd d rule: planLoop.induct)
  case (1 i cp pd d)
  show ?case
  proof (cases "int i < cp \<and> 0 < actualDuration (windowAt pd d i)")
    case False
    then show ?thesis by (simp add: planLoop_stop)
  next
    case True
    then have step: "planLoop i cp pd d = windowAt pd d i # planLoop (Suc i) cp pd d"
      by (simp add: planLoop_step)
    have "map index (planLoop (Suc i) cp pd d) = [Suc i..<Suc i + length (planLoop (Suc i) cp pd d)]"
      using 1 [OF _ refl] True by simp
    moreover have "[i..<i + Suc (length (planLoop (Suc i) cp pd d))] =
        i # [Suc i..<Suc i + length (planLoop (Suc i) cp pd d)]"
      by (subst upt_conv_Cons) simp_all
    moreover have "index (windowAt pd d i) = i"
      by (simp add: windowAt_def Let_def)
    ultimately show ?thesis
      by (simp add: step)
  qed
qed

text \<open>Durations are positive and every start is below the duration... \<close>

text \<open>A window whose unclamped end is inside the timeline has the full part duration; one
  whose unclamped end reaches the duration ends exactly there.\<close>

lemma windowAt_inner:
  assumes "real (Suc i) * pd \<le> d"
  shows "windowAt pd d i = \<lparr>index = i, start = real i * pd, actualDuration = pd\<rparr>"
  using assms by (simp add: windowAt_def Let_def algebra_simps)

lemma windowAt_last:
  assumes "d \<le> real (Suc i) * pd"
  shows "windowAt pd d i = \<lparr>index = i, start = real i * pd, actualDuration = d - real i * pd\<rparr>"
  using assms by (auto simp add: windowAt_def Let_def algebra_simps)

text \<open>When the part duration is positive and the last part starts before the end of the
  timeline, the loop never leaves early: it produces one window per counter value.\<close>

lemma planLoop_good:
  assumes "0 < pd" and "(real_of_int cp - 1) * pd < d"
  shows "planLoop i cp pd d = map (windowAt pd d) [i..<nat cp]"
  using assms
proof (induction i cp pd d rule: planLoop.induct)
  case (1 i cp pd d)
  show ?case
  proof (cases "int i < cp")
    case False
    then show ?thesis by (simp add: planLoop_stop)
  next
    case True
    have "real i * pd \<le> (real_of_int cp - 1) * pd"
      using True 1(2) by (intro mult_right_mono) auto
    hence lt: "real i * pd < d" using 1(3) by linarith
    have pos: "0 < actualDuration (windowAt pd d i)"
      using lt 1(2) by (simp add: windowAt_def Let_def algebra_simps)
    have "planLoop i cp pd d = windowAt pd d i # planLoop (Suc i) cp pd d"
      using True pos by (rule planLoop_step)
    also have "planLoop (Suc i) cp pd d = map (windowAt pd d) [Suc i..<nat cp]"
      using 1(1) [OF True refl] pos 1(2,3) by simp
    also have "windowAt pd d i # map (windowAt pd d) [Suc i..<nat cp] = map (windowAt pd d) [i..<nat cp]"
      using True by (simp add: upt_conv_Cons)
    finally show ?thesis .
  qed
qed

text \<open>The parameters computed from settings within the minimums satisfy these conditions.\<close>

lemma even_split:
  assumes "pd = d / real_of_int cp" and "1 \<le> cp" and "0 < d"
  shows "1 \<le> cp \<and> 0 < pd \<and> (real_of_int cp - 1) * pd < d \<and> d \<le> real_of_int cp * pd"
proof -
  have c: "0 < real_of_int cp" using assms(2) by simp
  have pd: "0 < pd" using assms(1,3) c by simp
  have e: "real_of_int cp * pd = d" using assms(1) c by simp
  have "(real_of_int cp - 1) * pd = d - pd" using e by (simp add: algebra_simps)
  then show ?thesis using pd e assms(2) by simp
qed

lemma planParams_good:
  assumes "valid_spec s" and "0 < d" and "planParams s f d = (cp, pd)"
  shows "1 \<le> cp \<and> 0 < pd \<and> (real_of_int cp - 1) * pd < d \<and> d \<le> real_of_int cp * pd"
proof (cases "splitMode s")
  case PartsMode
  with assms have cp: "pd = d / real_of_int cp" "1 \<le> cp"
    by (auto simp: planParams_def valid_spec_def)
  then show ?thesis using assms(2) by (rule even_split)
next
  case SizeMode
  with assms have cp: "pd = d / real_of_int cp" "1 \<le> cp"
    by (auto simp: planParams_def valid_spec_def Let_def split: if_splits)
  then show ?thesis using assms(2) by (rule even_split)
next
  case TimeMode
  with assms have T: "10 \<le> splitTime s" "pd = real_of_int (splitTime s)"
    and cp: "cp = (if \<lceil>d / pd\<rceil> < 1 then 1 else \<lceil>d / pd\<rceil>)"
    by (auto simp: planParams_def valid_spec_def Let_def)
  have pd: "0 < pd" using T by simp
  hence "0 < d / pd" using assms(2) by simp
  hence c1: "1 \<le> \<lceil>d / pd\<rceil>" by (simp add: ceiling_le_iff[symmetric] less_ceiling_iff) 
  hence cpe: "cp = \<lceil>d / pd\<rceil>" using cp by simp
  have "real_of_int cp - 1 < d / pd" unfolding cpe by linarith
  hence a: "(real_of_int cp - 1) * pd < d" using pd by (simp add: field_simps)
  have "d / pd \<le> real_of_int cp" unfolding cpe by linarith
  hence b: "d \<le> real_of_int cp * pd" using pd by (simp add: field_simps)
  show ?thesis using c1 cpe pd a b by simp
qed


text \<open>The shape of the plan for settings within the minimums: every window but the last
  has the part duration, the last one ends at the duration.\<close>

lemma plan_shape:
  assumes "valid_spec s" and "0 < d" and "planParams s f d = (cp, pd)"
  defines "n \<equiv> nat cp"
  shows "length (plan s f d) = n" and "0 < n" and "0 < pd"
    and "(real n - 1) * pd < d" and "d \<le> real n * pd"
    and "\<And>i. Suc i < n \<Longrightarrow> plan s f d ! i = \<lparr>index = i, start = real i * pd, actualDuration = pd\<rparr>"
    and "plan s f d ! (n - 1) =
           \<lparr>index = n - 1, start = real (n - 1) * pd, actualDuration = d - real (n - 1) * pd\<rparr>"
proof -
  from planParams_good [OF assms(1-3)]
  have cp: "1 \<le> cp" and pd: "0 < pd" and lo: "(real_of_int cp - 1) * pd < d"
    and hi: "d \<le> real_of_int cp * pd" by simp_all
  have rn: "real n = real_of_int cp" using cp by (simp add: n_def)
  have ws: "plan s f d = map (windowAt pd d) [0..<n]"
    using planLoop_good [OF pd lo, of 0] assms(3) by (simp add: plan_def n_def)
  show "length (plan s f d) = n" by (simp add: ws)
  show "0 < n" using cp by (simp add: n_def)
  show "0 < pd" by (rule pd)
  show lo': "(real n - 1) * pd < d" using lo by (simp add: rn)
  show hi': "d \<le> real n * pd" using hi by (simp add: rn)
  show "plan s f d ! i = \<lparr>index = i, start = real i * pd, actualDuration = pd\<rparr>"
    if "Suc i < n" for i
  proof -
    have "real (Suc i) \<le> real n - 1" using that by linarith
    hence "real (Suc i) * pd \<le> (real n - 1) * pd" using pd by (intro mult_right_mono) auto
    hence "real (Suc i) * pd \<le> d" using lo' by linarith
    from windowAt_inner [OF this] that show ?thesis by (simp add: ws)
  qed
  have "real (Suc (n - 1)) = real n" using \<open>0 < n\<close> by simp
  hence "d \<le> real (Suc (n - 1)) * pd" using hi' by simp
  from windowAt_last [OF this] \<open>0 < n\<close>
  show "plan s f d ! (n - 1) =
      \<lparr>index = n - 1, start = real (n - 1) * pd, actualDuration = d - real (n - 1) * pd\<rparr>"
    by (simp add: ws)
qed

text \<open>
  Claim C1. For settings within the minimums, in any of the three modes, and a positive
  duration, the planned windows are not empty, the first starts at 0, each window ends
  where the next starts, the end of a window is never after the start of a later one,
  every window has a positive duration, and the last window ends at the duration (the
  distance is at most \<open>10^-6\<close>; in exact arithmetic it is zero).
\<close>

theorem plan_covers_timeline:
  assumes "valid_spec s" and "0 < duration"
  shows "plan s f duration \<noteq> []
    \<and> start (hd (plan s f duration)) = 0
    \<and> (\<forall>i. Suc i < length (plan s f duration) \<longrightarrow>
          start (plan s f duration ! i) + actualDuration (plan s f duration ! i)
            = start (plan s f duration ! Suc i))
    \<and> (\<forall>i j. i < j \<and> j < length (plan s f duration) \<longrightarrow>
          start (plan s f duration ! i) + actualDuration (plan s f duration ! i)
            \<le> start (plan s f duration ! j))
    \<and> (\<forall>w \<in> set (plan s f duration). 0 < actualDuration w)
    \<and> \<bar>start (last (plan s f duration)) + actualDuration (last (plan s f duration)) - duration\<bar>
          \<le> 1 / 10 ^ 6"
proof -
  obtain cp pd where pp: "planParams s f duration = (cp, pd)" by (cases "planParams s f duration")
  define ws where "ws = plan s f duration"
  define n where "n = nat cp"
  note sh = plan_shape [OF assms pp, folded n_def ws_def]
  have len: "length ws = n" and n: "0 < n" and pd: "0 < pd" using sh(1-3) by auto
  have inner: "ws ! i = \<lparr>index = i, start = real i * pd, actualDuration = pd\<rparr>" if "Suc i < n" for i
    using sh(6) that by simp
  have lastw: "ws ! (n - 1) = \<lparr>index = n - 1, start = real (n - 1) * pd,
      actualDuration = duration - real (n - 1) * pd\<rparr>" using sh(7) .
  have st: "start (ws ! i) = real i * pd" if "i < n" for i
  proof (cases "Suc i < n")
    case True then show ?thesis by (simp add: inner)
  next
    case False with that have "i = n - 1" by simp
    then show ?thesis using lastw by simp
  qed
  have ne: "ws \<noteq> []" using len n by auto
  have s0: "start (hd ws) = 0" using st [of 0] n ne by (simp add: hd_conv_nth)
  have contig: "start (ws ! i) + actualDuration (ws ! i) = start (ws ! Suc i)" if "Suc i < length ws" for i
    using that len st [of "Suc i"] by (simp add: inner algebra_simps)
  have novl: "start (ws ! i) + actualDuration (ws ! i) \<le> start (ws ! j)"
    if "i < j \<and> j < length ws" for i j
  proof -
    from that len have a: "Suc i < n" and b: "j < n" by auto
    have "real (Suc i) \<le> real j" using that by simp
    hence "real (Suc i) * pd \<le> real j * pd" using pd by (intro mult_right_mono) auto
    then show ?thesis using st [OF b] by (simp add: inner [OF a] algebra_simps)
  qed
  have posd: "0 < actualDuration w" if "w \<in> set ws" for w
  proof -
    from that obtain i where i: "i < n" and w: "w = ws ! i" using len by (auto simp: in_set_conv_nth)
    show ?thesis
    proof (cases "Suc i < n")
      case True then show ?thesis using pd by (simp add: w inner)
    next
      case False with i have e: "i = n - 1" by simp
      have "real (n - 1) = real n - 1" using n by (simp add: of_nat_diff)
      then show ?thesis using sh(4) lastw by (simp add: w e algebra_simps)
    qed
  qed
  have "last ws = ws ! (n - 1)" using ne len by (simp add: last_conv_nth)
  hence endd: "start (last ws) + actualDuration (last ws) = duration" using lastw by simp
  show ?thesis
    unfolding ws_def [symmetric] using ne s0 contig novl posd endd by simp
qed


theorem plan_covers_timeline_witness:
  "valid_spec (defaults\<lparr>splitMode := TimeMode, splitTime := 30\<rparr>) \<and> (0::real) < 95
   \<and> plan (defaults\<lparr>splitMode := TimeMode, splitTime := 30\<rparr>) clip 95 \<noteq> []
   \<and> start (hd (plan (defaults\<lparr>splitMode := TimeMode, splitTime := 30\<rparr>) clip 95)) = 0
   \<and> \<bar>start (last (plan (defaults\<lparr>splitMode := TimeMode, splitTime := 30\<rparr>) clip 95))
        + actualDuration (last (plan (defaults\<lparr>splitMode := TimeMode, splitTime := 30\<rparr>) clip 95))
        - 95\<bar> \<le> 1 / 10 ^ 6"
proof -
  have v: "valid_spec (defaults\<lparr>splitMode := TimeMode, splitTime := 30\<rparr>)"
    by (simp add: valid_spec_def defaults_def)
  have d: "(0::real) < 95" by simp
  from plan_covers_timeline [OF v d, of clip] v d show ?thesis by blast
qed

text \<open>
  Claim C2. In parts mode with a count of at least 2 and a positive duration, the plan has
  exactly count windows; window \<open>i\<close> starts at \<open>i * (duration / count)\<close> and lasts
  \<open>duration / count\<close>, which is positive; the last window ends at the duration; and the
  durations sum to the duration (within \<open>10^-6\<close>).
\<close>

theorem parts_plan:
  assumes "splitMode s = PartsMode" and "2 \<le> parts s" and "0 < duration"
  shows "length (plan s f duration) = nat (parts s)
    \<and> (\<forall>i < nat (parts s).
          index (plan s f duration ! i) = i
          \<and> start (plan s f duration ! i) = real i * (duration / real_of_int (parts s))
          \<and> actualDuration (plan s f duration ! i) = duration / real_of_int (parts s)
          \<and> 0 < actualDuration (plan s f duration ! i))
    \<and> start (last (plan s f duration)) + actualDuration (last (plan s f duration)) = duration
    \<and> \<bar>sum_list (map actualDuration (plan s f duration)) - duration\<bar> \<le> 1 / 10 ^ 6"
proof -
  define pd where "pd = duration / real_of_int (parts s)"
  define n where "n = nat (parts s)"
  define ws where "ws = plan s f duration"
  have v: "valid_spec s" using assms(1,2) by (simp add: valid_spec_def)
  have pp: "planParams s f duration = (parts s, pd)"
    using assms(1) by (simp add: planParams_def pd_def)
  note sh = plan_shape [OF v assms(3) pp, folded n_def ws_def]
  have len: "length ws = n" and n: "0 < n" and pd: "0 < pd" using sh(1-3) by auto
  have rn: "real n = real_of_int (parts s)" using assms(2) by (simp add: n_def)
  have npd: "real n * pd = duration" using assms(2) by (simp add: rn pd_def)
  have "real (n - 1) = real n - 1" using n by (simp add: of_nat_diff)
  hence "duration - real (n - 1) * pd = pd" using npd by (simp add: algebra_simps)
  hence lastw: "ws ! (n - 1) = \<lparr>index = n - 1, start = real (n - 1) * pd, actualDuration = pd\<rparr>"
    using sh(7) by simp
  have every: "ws ! i = \<lparr>index = i, start = real i * pd, actualDuration = pd\<rparr>" if "i < n" for i
  proof (cases "Suc i < n")
    case True then show ?thesis by (rule sh(6))
  next
    case False with that have "i = n - 1" by simp
    then show ?thesis using lastw by simp
  qed
  have "ws = map (\<lambda>i. \<lparr>index = i, start = real i * pd, actualDuration = pd\<rparr>) [0..<n]"
    by (rule nth_equalityI) (simp_all add: len every)
  hence "map actualDuration ws = map (\<lambda>i. pd) [0..<n]" by (simp add: comp_def)
  hence total: "sum_list (map actualDuration ws) = duration"
    using npd by (simp add: sum_list_triv)
  have "ws \<noteq> []" using len n by auto
  hence "last ws = ws ! (n - 1)" using len by (simp add: last_conv_nth)
  hence endd: "start (last ws) + actualDuration (last ws) = duration"
    using lastw npd \<open>real (n - 1) = real n - 1\<close> by (simp add: algebra_simps)
  show ?thesis
    unfolding ws_def [symmetric] n_def [symmetric] pd_def [symmetric]
    using len every pd total endd by simp
qed

theorem parts_plan_witness:
  "splitMode (defaults\<lparr>parts := 4\<rparr>) = PartsMode \<and> 2 \<le> parts (defaults\<lparr>parts := 4\<rparr>)
   \<and> (0::real) < 100
   \<and> plan (defaults\<lparr>parts := 4\<rparr>) clip 100 =
       [\<lparr>index = 0, start = 0, actualDuration = 25\<rparr>, \<lparr>index = 1, start = 25, actualDuration = 25\<rparr>,
        \<lparr>index = 2, start = 50, actualDuration = 25\<rparr>, \<lparr>index = 3, start = 75, actualDuration = 25\<rparr>]
   \<and> length (plan (defaults\<lparr>parts := 4\<rparr>) clip 100) = 4
   \<and> \<bar>sum_list (map actualDuration (plan (defaults\<lparr>parts := 4\<rparr>) clip 100)) - 100\<bar> \<le> 1 / 10 ^ 6"
proof -
  have m: "splitMode (defaults\<lparr>parts := 4\<rparr>) = PartsMode" by (simp add: defaults_def)
  have c: "2 \<le> parts (defaults\<lparr>parts := 4\<rparr>)" by (simp add: defaults_def)
  have d: "(0::real) < 100" by simp
  have e: "plan (defaults\<lparr>parts := 4\<rparr>) clip 100 =
       [\<lparr>index = 0, start = 0, actualDuration = 25\<rparr>, \<lparr>index = 1, start = 25, actualDuration = 25\<rparr>,
        \<lparr>index = 2, start = 50, actualDuration = 25\<rparr>, \<lparr>index = 3, start = 75, actualDuration = 25\<rparr>]"
    by (simp add: plan_def planParams_def defaults_def planLoop.simps windowAt_def Let_def)
  from parts_plan [OF m c d, of clip] have
    "length (plan (defaults\<lparr>parts := 4\<rparr>) clip 100) = nat (parts (defaults\<lparr>parts := 4\<rparr>))"
    "\<bar>sum_list (map actualDuration (plan (defaults\<lparr>parts := 4\<rparr>) clip 100)) - 100\<bar> \<le> 1 / 10 ^ 6"
    by blast+
  then show ?thesis using m c d e by (simp add: defaults_def)
qed


text \<open>
  Claim C3. In time mode with a target of at least 10 seconds and a positive duration, the
  plan has exactly \<open>max 1 (ceiling (duration / target))\<close> windows; every window but the last
  starts at a multiple of the target and has the target as its duration; the last window
  takes the time that remains, which is positive and at most the target.
\<close>

theorem time_plan:
  assumes "splitMode s = TimeMode" and "10 \<le> splitTime s" and "0 < duration"
  shows "length (plan s f duration) = nat (max 1 \<lceil>duration / real_of_int (splitTime s)\<rceil>)
    \<and> (\<forall>i. Suc i < length (plan s f duration) \<longrightarrow>
          start (plan s f duration ! i) = real i * real_of_int (splitTime s)
          \<and> actualDuration (plan s f duration ! i) = real_of_int (splitTime s))
    \<and> start (last (plan s f duration))
         = real (length (plan s f duration) - 1) * real_of_int (splitTime s)
    \<and> actualDuration (last (plan s f duration)) = duration - start (last (plan s f duration))
    \<and> 0 < actualDuration (last (plan s f duration))
    \<and> actualDuration (last (plan s f duration)) \<le> real_of_int (splitTime s)"
proof -
  define pd where "pd = real_of_int (splitTime s)"
  define cp where "cp = max 1 \<lceil>duration / pd\<rceil>"
  define n where "n = nat cp"
  define ws where "ws = plan s f duration"
  have v: "valid_spec s" using assms(1,2) by (simp add: valid_spec_def)
  have pp: "planParams s f duration = (cp, pd)"
    using assms(1) by (simp add: planParams_def pd_def cp_def Let_def max_def)
  note sh = plan_shape [OF v assms(3) pp, folded n_def ws_def]
  have len: "length ws = n" and n: "0 < n" and pd: "0 < pd" using sh(1-3) by auto
  have ne: "ws \<noteq> []" using len n by auto
  hence l: "last ws = ws ! (n - 1)" using len by (simp add: last_conv_nth)
  have r: "real (n - 1) = real n - 1" using n by (simp add: of_nat_diff)
  have inner: "start (ws ! i) = real i * pd \<and> actualDuration (ws ! i) = pd" if "Suc i < length ws" for i
    using sh(6) [of i] that len by simp
  have a: "start (last ws) = real (length ws - 1) * pd" using sh(7) l len by simp
  have b: "actualDuration (last ws) = duration - start (last ws)" using sh(7) l by simp
  have c: "0 < actualDuration (last ws)" using sh(4,7) l r by (simp add: algebra_simps)
  have d: "actualDuration (last ws) \<le> pd" using sh(5,7) l r by (simp add: algebra_simps)
  show ?thesis
    unfolding ws_def [symmetric] pd_def [symmetric]
    using len inner a b c d by (simp add: n_def cp_def)
qed

theorem time_plan_witness:
  "splitMode (defaults\<lparr>splitMode := TimeMode, splitTime := 30\<rparr>) = TimeMode
   \<and> 10 \<le> splitTime (defaults\<lparr>splitMode := TimeMode, splitTime := 30\<rparr>) \<and> (0::real) < 95
   \<and> length (plan (defaults\<lparr>splitMode := TimeMode, splitTime := 30\<rparr>) clip 95) = 4
   \<and> plan (defaults\<lparr>splitMode := TimeMode, splitTime := 30\<rparr>) clip 95 =
       [\<lparr>index = 0, start = 0, actualDuration = 30\<rparr>, \<lparr>index = 1, start = 30, actualDuration = 30\<rparr>,
        \<lparr>index = 2, start = 60, actualDuration = 30\<rparr>, \<lparr>index = 3, start = 90, actualDuration = 5\<rparr>]"
proof -
  let ?s = "defaults\<lparr>splitMode := TimeMode, splitTime := 30\<rparr>"
  have m: "splitMode ?s = TimeMode" by (simp add: defaults_def)
  have c: "10 \<le> splitTime ?s" by (simp add: defaults_def)
  have d: "(0::real) < 95" by simp
  have e: "plan ?s clip 95 =
       [\<lparr>index = 0, start = 0, actualDuration = 30\<rparr>, \<lparr>index = 1, start = 30, actualDuration = 30\<rparr>,
        \<lparr>index = 2, start = 60, actualDuration = 30\<rparr>, \<lparr>index = 3, start = 90, actualDuration = 5\<rparr>]"
    by (simp add: plan_def planParams_def defaults_def planLoop.simps windowAt_def Let_def)
  from time_plan [OF m c d, of clip]
  have "length (plan ?s clip 95) = nat (max 1 \<lceil>95 / real_of_int (splitTime ?s)\<rceil>)" by blast
  hence "length (plan ?s clip 95) = 4" by (simp add: defaults_def)
  then show ?thesis using m c d e by simp
qed

text \<open>
  Claim C4. In size mode with a target of at least 1 MB and a positive duration, the plan
  is the plan of parts mode with the count the specification derives from the size,
  \<open>max 1 (ceiling ((size / 1MB) / target))\<close>.
\<close>

theorem size_plan_as_parts:
  assumes "splitMode s = SizeMode" and "1 \<le> splitSize s" and "0 < duration"
  shows "plan s f duration =
         plan (s\<lparr>splitMode := PartsMode,
                 parts := spec_estimatedParts (file_size f) (splitSize s)\<rparr>) f duration"
  using assms(1) by (simp add: plan_def planParams_def spec_estimatedParts_def Let_def max_def)

theorem size_plan_as_parts_witness:
  "splitMode (defaults\<lparr>splitMode := SizeMode\<rparr>) = SizeMode
   \<and> 1 \<le> splitSize (defaults\<lparr>splitMode := SizeMode\<rparr>) \<and> (0::real) < 100
   \<and> spec_estimatedParts (file_size clip) (splitSize (defaults\<lparr>splitMode := SizeMode\<rparr>)) = 5
   \<and> plan (defaults\<lparr>splitMode := SizeMode\<rparr>) clip 100
       = plan (defaults\<lparr>splitMode := PartsMode, parts := 5\<rparr>) clip 100
   \<and> length (plan (defaults\<lparr>splitMode := SizeMode\<rparr>) clip 100) = 5"
proof -
  let ?s = "defaults\<lparr>splitMode := SizeMode\<rparr>"
  have m: "splitMode ?s = SizeMode" by (simp add: defaults_def)
  have c: "1 \<le> splitSize ?s" by (simp add: defaults_def)
  have d: "(0::real) < 100" by simp
  have n: "spec_estimatedParts (file_size clip) (splitSize ?s) = 5"
    by (simp add: spec_estimatedParts_def defaults_def clip_def)
  have l: "length (plan (defaults\<lparr>splitMode := PartsMode, parts := 5\<rparr>) clip 100) = 5"
    by (simp add: plan_def planParams_def defaults_def planLoop.simps windowAt_def Let_def)
  from size_plan_as_parts [OF m c d, of clip]
  have "plan ?s clip 100 = plan (defaults\<lparr>splitMode := PartsMode, parts := 5\<rparr>) clip 100"
    unfolding n by (simp add: defaults_def)
  then show ?thesis using m c d n l by simp
qed


section \<open>The percentage of the status line\<close>

text \<open>The search for the exponent ends where the scaled quotient has reached \<open>2^52\<close>, so
  the rounded significand is within half a unit of the scaled quotient, and the double is
  within \<open>2^-53\<close> of the quotient, relatively.\<close>

declare scale.simps [simp del]













section \<open>Properties of the run\<close>

text \<open>Both readings of the trace distribute over concatenation.\<close>

lemma execCalls_append: "execCalls (xs @ ys) = execCalls xs @ execCalls ys"
  by (induction xs rule: execCalls.induct) simp_all

lemma reportedProgress_append:
  "reportedProgress (xs @ ys) = reportedProgress xs @ reportedProgress ys"
  by (induction xs rule: reportedProgress.induct) simp_all

text \<open>One iteration of the loop with the engine.\<close>

lemma splitLoop_stop:
  "\<not> (int i < cp \<and> 0 < actualDuration (windowAt pd d i)) \<Longrightarrow>
   splitLoop E mode f d cp pd i outs st = Returned (outs, st)"
  by (subst splitLoop.simps) (auto simp: Let_def)

lemma splitLoop_step:
  assumes "int i < cp" and "0 < actualDuration (windowAt pd d i)"
  shows "splitLoop E mode f d cp pd i outs st =
    (case exec E (ffmpegArgs mode (windowAt pd d i) (outputName (file_name f) i)) (fs st) of
       None \<Rightarrow>
         Threw (outs,
           submitted (ffmpegArgs mode (windowAt pd d i) (outputName (file_name f) i))
             (setStatus (SplittingPart (Suc i) cp (percentAt i cp)) st))
     | Some fs' \<Rightarrow>
         (case readFile E (outputName (file_name f) i) fs' of
            None \<Rightarrow>
              Threw (outs,
                (submitted (ffmpegArgs mode (windowAt pd d i) (outputName (file_name f) i))
                  (setStatus (SplittingPart (Suc i) cp (percentAt i cp)) st))
                \<lparr>fs := fs'\<rparr>)
          | Some data \<Rightarrow>
              splitLoop E mode f d cp pd (Suc i)
                (outs @ [\<lparr>art_name = outputName (file_name f) i, art_url = Blob data (file_type f)\<rparr>])
                ((submitted (ffmpegArgs mode (windowAt pd d i) (outputName (file_name f) i))
                  (setStatus (SplittingPart (Suc i) cp (percentAt i cp)) st))
                \<lparr>fs := fs'\<rparr>)))"
  using assms by (subst splitLoop.simps) (simp add: Let_def submitted_def setStatus_def split: option.split)

text \<open>
  What the loop leaves behind, whether it ends or raises: it entered the first \<open>m\<close> planned
  windows, in order and once each; for each it reported the percentage of the window's
  counter and submitted the window's command; it did not touch the result list, the error
  message or the processing flag. When it ends, it entered every planned window and made one
  artifact per window, named after the window's counter. When it raises, it entered at
  least one window.
\<close>

lemma splitLoop_outcome:
  "\<exists>m outs' st'. m \<le> length (planLoop i cp pd d) \<and>
     (splitLoop E mode f d cp pd i outs st = Returned (outs', st')
        \<and> m = length (planLoop i cp pd d)
        \<and> map art_name outs' =
            map art_name outs @ map (\<lambda>w. outputName (file_name f) (index w)) (planLoop i cp pd d)
      \<or> splitLoop E mode f d cp pd i outs st = Threw (outs', st') \<and> 0 < m) \<and>
     execCalls (trace st') = execCalls (trace st) @
       map (\<lambda>w. ffmpegArgs mode w (outputName (file_name f) (index w))) (take m (planLoop i cp pd d)) \<and>
     reportedProgress (trace st') = reportedProgress (trace st) @
       map (\<lambda>w. percentAt (index w) cp) (take m (planLoop i cp pd d)) \<and>
     resultFiles st' = resultFiles st \<and> error st' = error st \<and> processing st' = processing st"
proof (induction i cp pd d arbitrary: outs st rule: planLoop.induct)
  case (1 i cp pd d)
  let ?w = "windowAt pd d i"
  let ?name = "outputName (file_name f) i"
  let ?args = "ffmpegArgs mode ?w ?name"
  let ?st2 = "submitted ?args
    (setStatus (SplittingPart (Suc i) cp (percentAt i cp)) st)"
  have iw: "index ?w = i" by (simp add: windowAt_def Let_def)
  have st2: "execCalls (trace ?st2) = execCalls (trace st) @ [?args]"
    "reportedProgress (trace ?st2) =
       reportedProgress (trace st) @ [percentAt i cp]"
    "resultFiles ?st2 = resultFiles st" "error ?st2 = error st" "processing ?st2 = processing st"
    by (simp_all add: submitted_def setStatus_def execCalls_append reportedProgress_append)
  show ?case
  proof (cases "int i < cp \<and> 0 < actualDuration ?w")
    case False
    then show ?thesis
      by (simp add: planLoop_stop splitLoop_stop)
  next
    case True
    then have pl: "planLoop i cp pd d = ?w # planLoop (Suc i) cp pd d"
      by (simp add: planLoop_step)
    note sl = splitLoop_step [OF conjunct1 [OF True] conjunct2 [OF True], of E mode f outs st]
    show ?thesis
    proof (cases "exec E ?args (fs st)")
      case None
      with sl have "splitLoop E mode f d cp pd i outs st = Threw (outs, ?st2)" by simp
      with st2 iw show ?thesis
        by (intro exI [of _ "Suc 0"] exI [of _ outs] exI [of _ ?st2]) (simp add: pl)
    next
      case (Some fs')
      note ex = this
      show ?thesis
      proof (cases "readFile E ?name fs'")
        case None
        with sl ex have "splitLoop E mode f d cp pd i outs st = Threw (outs, ?st2\<lparr>fs := fs'\<rparr>)"
          by simp
        with st2 iw show ?thesis
          by (intro exI [of _ "Suc 0"] exI [of _ outs] exI [of _ "?st2\<lparr>fs := fs'\<rparr>"])
             (simp add: pl)
      next
        case (Some data)
        let ?outs = "outs @ [\<lparr>art_name = ?name, art_url = Blob data (file_type f)\<rparr>]"
        let ?st3 = "?st2\<lparr>fs := fs'\<rparr>"
        from sl ex Some have eq: "splitLoop E mode f d cp pd i outs st =
            splitLoop E mode f d cp pd (Suc i) ?outs ?st3" by simp
        have ih: "\<exists>m outs' st'. m \<le> length (planLoop (Suc i) cp pd d) \<and>
           (splitLoop E mode f d cp pd (Suc i) ?outs ?st3 = Returned (outs', st')
              \<and> m = length (planLoop (Suc i) cp pd d)
              \<and> map art_name outs' = map art_name ?outs @
                   map (\<lambda>w. outputName (file_name f) (index w)) (planLoop (Suc i) cp pd d)
            \<or> splitLoop E mode f d cp pd (Suc i) ?outs ?st3 = Threw (outs', st') \<and> 0 < m) \<and>
           execCalls (trace st') = execCalls (trace ?st3) @
             map (\<lambda>w. ffmpegArgs mode w (outputName (file_name f) (index w)))
               (take m (planLoop (Suc i) cp pd d)) \<and>
           reportedProgress (trace st') = reportedProgress (trace ?st3) @
             map (\<lambda>w. percentAt (index w) cp)
               (take m (planLoop (Suc i) cp pd d)) \<and>
           resultFiles st' = resultFiles ?st3 \<and> error st' = error ?st3
           \<and> processing st' = processing ?st3"
          using 1 [OF conjunct1 [OF True] refl, of ?outs ?st3] True by simp
        then obtain m outs' st' where m: "m \<le> length (planLoop (Suc i) cp pd d)"
          and r: "splitLoop E mode f d cp pd (Suc i) ?outs ?st3 = Returned (outs', st')
              \<and> m = length (planLoop (Suc i) cp pd d)
              \<and> map art_name outs' = map art_name ?outs @
                   map (\<lambda>w. outputName (file_name f) (index w)) (planLoop (Suc i) cp pd d)
            \<or> splitLoop E mode f d cp pd (Suc i) ?outs ?st3 = Threw (outs', st') \<and> 0 < m"
          and e: "execCalls (trace st') = execCalls (trace ?st3) @
             map (\<lambda>w. ffmpegArgs mode w (outputName (file_name f) (index w)))
               (take m (planLoop (Suc i) cp pd d))"
          and p: "reportedProgress (trace st') = reportedProgress (trace ?st3) @
             map (\<lambda>w. percentAt (index w) cp)
               (take m (planLoop (Suc i) cp pd d))"
          and k: "resultFiles st' = resultFiles ?st3" "error st' = error ?st3"
             "processing st' = processing ?st3"
          by blast
        have t3: "trace ?st3 = trace ?st2" "resultFiles ?st3 = resultFiles ?st2"
          "error ?st3 = error ?st2" "processing ?st3 = processing ?st2" by simp_all
        show ?thesis
          apply (intro exI [of _ "Suc m"] exI [of _ outs'] exI [of _ st'])
          using m r e p k st2 iw unfolding eq pl t3 by auto
      qed
    qed
  qed
qed


text \<open>The same for the body of the \<open>try\<close> block, which adds the two steps before the loop
  and the three updates after it.\<close>

lemma tryBody_outcome:
  fixes st :: "('fs, 'd) app"
  shows "\<exists>m st'. m \<le> length (plan s f (getDuration E f)) \<and>
     (tryBody E s f st = Returned st'
        \<and> m = length (plan s f (getDuration E f))
        \<and> map art_name (resultFiles st') =
            map (\<lambda>w. outputName (file_name f) (index w)) (plan s f (getDuration E f))
        \<and> status st' = Done \<and> progress st' = 100
        \<and> reportedProgress (trace st') = reportedProgress (trace st) @
            map (\<lambda>w. percentAt (index w) (fst (planParams s f (getDuration E f))))
              (plan s f (getDuration E f)) @ [100]
      \<or> tryBody E s f st = Threw st'
        \<and> resultFiles st' = resultFiles st
        \<and> reportedProgress (trace st') = reportedProgress (trace st) @
            map (\<lambda>w. percentAt (index w) (fst (planParams s f (getDuration E f))))
              (take m (plan s f (getDuration E f)))) \<and>
     execCalls (trace st') = execCalls (trace st) @
       map (\<lambda>w. ffmpegArgs (encodingMode s) w (outputName (file_name f) (index w)))
         (take m (plan s f (getDuration E f))) \<and>
     error st' = error st \<and> processing st' = processing st"
proof -
  let ?d = "getDuration E f"
  let ?st1 = "setStatus ReadingMediaFile st"
  have st1: "execCalls (trace ?st1) = execCalls (trace st)"
    "reportedProgress (trace ?st1) = reportedProgress (trace st)"
    "resultFiles ?st1 = resultFiles st" "error ?st1 = error st" "processing ?st1 = processing st"
    "fs ?st1 = fs st"
    by (simp_all add: setStatus_def execCalls_append reportedProgress_append)
  show ?thesis
  proof (cases "fetchFile E f")
    case None
    then have "tryBody E s f st = Threw ?st1" by (simp add: tryBody_def Let_def)
    with st1 show ?thesis
      by (intro exI [of _ 0] exI [of _ ?st1]) simp
  next
    case (Some data)
    note fe = this
    show ?thesis
    proof (cases "writeFile E ''input'' data (fs st)")
      case None
      with fe st1(6) have "tryBody E s f st = Threw ?st1" by (simp add: tryBody_def Let_def)
      with st1 show ?thesis
        by (intro exI [of _ 0] exI [of _ ?st1]) simp
    next
      case (Some fs')
      note wr = this
      obtain cp pd where pp: "planParams s f ?d = (cp, pd)" by (cases "planParams s f ?d")
      let ?st2 = "setStatus AnalyzingDuration (?st1\<lparr>fs := fs'\<rparr>)"
      have st2: "execCalls (trace ?st2) = execCalls (trace st)"
        "reportedProgress (trace ?st2) = reportedProgress (trace st)"
        "resultFiles ?st2 = resultFiles st" "error ?st2 = error st"
        "processing ?st2 = processing st"
        by (simp_all add: setStatus_def execCalls_append reportedProgress_append)
      have pl: "plan s f ?d = planLoop 0 cp pd ?d" by (simp add: plan_def pp)
      have body: "tryBody E s f st =
        (case splitLoop E (encodingMode s) f ?d cp pd 0 [] ?st2 of
           Threw (outputs, st3) \<Rightarrow> Threw st3
         | Returned (outputs, st3) \<Rightarrow>
             Returned (setProgress 100 (setStatus Done (setResultFiles outputs st3))))"
        using fe wr st1(6) pp by (simp add: tryBody_def Let_def)
      from splitLoop_outcome [of 0 cp pd ?d E "encodingMode s" f "[]" ?st2]
      obtain m outs' st' where m: "m \<le> length (planLoop 0 cp pd ?d)"
        and r: "splitLoop E (encodingMode s) f ?d cp pd 0 [] ?st2 = Returned (outs', st')
              \<and> m = length (planLoop 0 cp pd ?d)
              \<and> map art_name outs' = map art_name ([] :: 'd artifact list) @
                   map (\<lambda>w. outputName (file_name f) (index w)) (planLoop 0 cp pd ?d)
            \<or> splitLoop E (encodingMode s) f ?d cp pd 0 [] ?st2 = Threw (outs', st') \<and> 0 < m"
        and e: "execCalls (trace st') = execCalls (trace ?st2) @
             map (\<lambda>w. ffmpegArgs (encodingMode s) w (outputName (file_name f) (index w)))
               (take m (planLoop 0 cp pd ?d))"
        and p: "reportedProgress (trace st') = reportedProgress (trace ?st2) @
             map (\<lambda>w. percentAt (index w) cp)
               (take m (planLoop 0 cp pd ?d))"
        and k: "resultFiles st' = resultFiles ?st2" "error st' = error ?st2"
             "processing st' = processing ?st2"
        by (elim exE conjE) (rule that)
      from r show ?thesis
      proof
        assume a: "splitLoop E (encodingMode s) f ?d cp pd 0 [] ?st2 = Returned (outs', st')
              \<and> m = length (planLoop 0 cp pd ?d)
              \<and> map art_name outs' = map art_name ([] :: 'd artifact list) @
                   map (\<lambda>w. outputName (file_name f) (index w)) (planLoop 0 cp pd ?d)"
        let ?fin = "setProgress 100 (setStatus Done (setResultFiles outs' st'))"
        from a body have "tryBody E s f st = Returned ?fin" by simp
        moreover have "execCalls (trace ?fin) = execCalls (trace st')"
          "reportedProgress (trace ?fin) = reportedProgress (trace st') @ [100]"
          "resultFiles ?fin = outs'" "error ?fin = error st'" "processing ?fin = processing st'"
          "status ?fin = Done" "progress ?fin = 100"
          by (simp_all add: setProgress_def setStatus_def setResultFiles_def
              execCalls_append reportedProgress_append)
        ultimately show ?thesis
          using a m e p k st2 unfolding pl pp
          by (intro exI [of _ m] exI [of _ ?fin]) simp
      next
        assume a: "splitLoop E (encodingMode s) f ?d cp pd 0 [] ?st2 = Threw (outs', st') \<and> 0 < m"
        with body have "tryBody E s f st = Threw st'" by simp
        then show ?thesis
          using m e p k st2 unfolding pl pp
          by (intro exI [of _ m] exI [of _ st']) simp
      qed
    qed
  qed
qed

text \<open>The same for the whole routine: it ends either with the empty error message, or with
  the one message of the \<open>catch\<close> clause and an empty result list.\<close>

lemma splitMedia_outcome:
  "\<exists>m. m \<le> length (plan s f (getDuration E f)) \<and>
     (error (splitMedia E s (Some f) st) = ''''
        \<and> m = length (plan s f (getDuration E f))
        \<and> map art_name (resultFiles (splitMedia E s (Some f) st)) =
            map (\<lambda>w. outputName (file_name f) (index w)) (plan s f (getDuration E f))
        \<and> status (splitMedia E s (Some f) st) = Done
        \<and> progress (splitMedia E s (Some f) st) = 100
        \<and> reportedProgress (trace (splitMedia E s (Some f) st)) = reportedProgress (trace st) @
            map (\<lambda>w. percentAt (index w) (fst (planParams s f (getDuration E f))))
              (plan s f (getDuration E f)) @ [100]
        \<and> (\<exists>st'. tryBody E s f (setResultFiles [] (setError '''' (setProcessing True st)))
                    = Returned st')
      \<or> error (splitMedia E s (Some f) st)
            = ''An error occurred. Please check if the file format is valid.''
        \<and> resultFiles (splitMedia E s (Some f) st) = []
        \<and> reportedProgress (trace (splitMedia E s (Some f) st)) = reportedProgress (trace st) @
            map (\<lambda>w. percentAt (index w) (fst (planParams s f (getDuration E f))))
              (take m (plan s f (getDuration E f)))
        \<and> (\<exists>st'. tryBody E s f (setResultFiles [] (setError '''' (setProcessing True st)))
                    = Threw st')) \<and>
     execCalls (trace (splitMedia E s (Some f) st)) = execCalls (trace st) @
       map (\<lambda>w. ffmpegArgs (encodingMode s) w (outputName (file_name f) (index w)))
         (take m (plan s f (getDuration E f))) \<and>
     \<not> processing (splitMedia E s (Some f) st)"
proof -
  let ?st0 = "setResultFiles [] (setError '''' (setProcessing True st))"
  have st0: "trace ?st0 = trace st" "resultFiles ?st0 = []" "error ?st0 = ''''"
    by (simp_all add: setResultFiles_def setError_def setProcessing_def)
  from tryBody_outcome [of s f E ?st0]
  obtain m st' where m: "m \<le> length (plan s f (getDuration E f))"
    and r: "tryBody E s f ?st0 = Returned st'
        \<and> m = length (plan s f (getDuration E f))
        \<and> map art_name (resultFiles st') =
            map (\<lambda>w. outputName (file_name f) (index w)) (plan s f (getDuration E f))
        \<and> status st' = Done \<and> progress st' = 100
        \<and> reportedProgress (trace st') = reportedProgress (trace ?st0) @
            map (\<lambda>w. percentAt (index w) (fst (planParams s f (getDuration E f))))
              (plan s f (getDuration E f)) @ [100]
      \<or> tryBody E s f ?st0 = Threw st'
        \<and> resultFiles st' = resultFiles ?st0
        \<and> reportedProgress (trace st') = reportedProgress (trace ?st0) @
            map (\<lambda>w. percentAt (index w) (fst (planParams s f (getDuration E f))))
              (take m (plan s f (getDuration E f)))"
    and e: "execCalls (trace st') = execCalls (trace ?st0) @
       map (\<lambda>w. ffmpegArgs (encodingMode s) w (outputName (file_name f) (index w)))
         (take m (plan s f (getDuration E f)))"
    and k: "error st' = error ?st0"
    by (elim exE conjE) (rule that)
  from r show ?thesis
  proof
    assume a: "tryBody E s f ?st0 = Returned st'
        \<and> m = length (plan s f (getDuration E f))
        \<and> map art_name (resultFiles st') =
            map (\<lambda>w. outputName (file_name f) (index w)) (plan s f (getDuration E f))
        \<and> status st' = Done \<and> progress st' = 100
        \<and> reportedProgress (trace st') = reportedProgress (trace ?st0) @
            map (\<lambda>w. percentAt (index w) (fst (planParams s f (getDuration E f))))
              (plan s f (getDuration E f)) @ [100]"
    then have fin: "splitMedia E s (Some f) st = setProcessing False st'"
      by (simp add: splitMedia_def Let_def)
    show ?thesis
      apply (rule exI [of _ m])
      unfolding fin using a m e k st0 by (simp add: setProcessing_def)
  next
    assume a: "tryBody E s f ?st0 = Threw st'
        \<and> resultFiles st' = resultFiles ?st0
        \<and> reportedProgress (trace st') = reportedProgress (trace ?st0) @
            map (\<lambda>w. percentAt (index w) (fst (planParams s f (getDuration E f))))
              (take m (plan s f (getDuration E f)))"
    then have fin: "splitMedia E s (Some f) st = setProcessing False
        (setError ''An error occurred. Please check if the file format is valid.'' st')"
      by (simp add: splitMedia_def Let_def)
    show ?thesis
      apply (rule exI [of _ m])
      unfolding fin using a m e k st0 by (simp add: setProcessing_def setError_def)
  qed
qed


section \<open>Names of the artifacts\<close>

text \<open>Splitting and replacing on a name without the separator.\<close>

lemma js_split_no_sep: "c \<notin> set xs \<Longrightarrow> js_split c xs = [xs]"
  by (induction xs) auto

lemma js_replace_absent: "c \<notin> set xs \<Longrightarrow> js_replace (c # p) rep xs = xs"
  by (induction xs) auto

text \<open>After a run, the artifact at position \<open>k\<close> of the result list carries the name the
  loop computes for counter \<open>k\<close>; a run that ends without error has one artifact per
  planned window.\<close>

lemma splitMedia_names:
  "(error (splitMedia E s (Some f) st) = '''' \<longrightarrow>
      length (resultFiles (splitMedia E s (Some f) st)) = length (plan s f (getDuration E f)))
   \<and> (\<forall>k < length (resultFiles (splitMedia E s (Some f) st)).
        art_name (resultFiles (splitMedia E s (Some f) st) ! k) = outputName (file_name f) k)"
proof -
  let ?fin = "splitMedia E s (Some f) st"
  let ?ws = "plan s f (getDuration E f)"
  from splitMedia_outcome [of s f E st]
  have "map art_name (resultFiles ?fin) = map (\<lambda>w. outputName (file_name f) (index w)) ?ws
      \<or> error ?fin \<noteq> '''' \<and> resultFiles ?fin = []"
    by auto
  then show ?thesis
  proof
    assume a: "map art_name (resultFiles ?fin) = map (\<lambda>w. outputName (file_name f) (index w)) ?ws"
    then have len: "length (resultFiles ?fin) = length ?ws"
      by (metis length_map)
    have idx: "index (?ws ! k) = k" if "k < length ?ws" for k
    proof -
      obtain cp pd where pp: "planParams s f (getDuration E f) = (cp, pd)"
        by (cases "planParams s f (getDuration E f)")
      have "map index ?ws = [0..<length ?ws]"
        using planLoop_index [of 0 cp pd "getDuration E f"] by (simp add: plan_def pp)
      then have "map index ?ws ! k = [0..<length ?ws] ! k" by simp
      then show ?thesis using that by simp
    qed
    have "art_name (resultFiles ?fin ! k) = outputName (file_name f) k"
      if "k < length (resultFiles ?fin)" for k
    proof -
      have "art_name (resultFiles ?fin ! k) = map art_name (resultFiles ?fin) ! k"
        using that by simp
      also have "\<dots> = outputName (file_name f) (index (?ws ! k))"
        unfolding a using that len by simp
      finally show ?thesis using idx that len by simp
    qed
    then show ?thesis using len by simp
  next
    assume "error ?fin \<noteq> '''' \<and> resultFiles ?fin = []"
    then show ?thesis by simp
  qed
qed


section \<open>A rejected command makes the run raise\<close>

text \<open>A loop that ends has had every planned command accepted by the engine. So when the
  engine rejects the command of some planned window in every state of its file system, the
  \<open>try\<close> block raises.\<close>

lemma splitLoop_Returned_accepted:
  assumes "splitLoop E mode f d cp pd i outs st = Returned r"
    and "w \<in> set (planLoop i cp pd d)"
  shows "\<exists>fs0. exec E (ffmpegArgs mode w (outputName (file_name f) (index w))) fs0 \<noteq> None"
  using assms
proof (induction i cp pd d arbitrary: outs st rule: planLoop.induct)
  case (1 i cp pd d)
  let ?w = "windowAt pd d i"
  let ?name = "outputName (file_name f) i"
  let ?args = "ffmpegArgs mode ?w ?name"
  have iw: "index ?w = i" by (simp add: windowAt_def Let_def)
  show ?case
  proof (cases "int i < cp \<and> 0 < actualDuration ?w")
    case False
    then have "planLoop i cp pd d = []" by (rule planLoop_stop)
    with 1(3) show ?thesis by simp
  next
    case True
    then have pl: "planLoop i cp pd d = ?w # planLoop (Suc i) cp pd d"
      by (simp add: planLoop_step)
    note sl = splitLoop_step [OF conjunct1 [OF True] conjunct2 [OF True], of E mode f outs st]
    from 1(2) sl obtain fs' data where ex: "exec E ?args (fs st) = Some fs'"
      and rd: "readFile E ?name fs' = Some data"
      by (auto split: option.splits)
    from 1(2) sl ex rd obtain st3 where
      next_ret: "splitLoop E mode f d cp pd (Suc i)
          (outs @ [\<lparr>art_name = ?name, art_url = Blob data (file_type f)\<rparr>]) st3 = Returned r"
      by simp
    from 1(3) pl have "w = ?w \<or> w \<in> set (planLoop (Suc i) cp pd d)" by simp
    then show ?thesis
    proof
      assume "w = ?w"
      with ex iw show ?thesis by auto
    next
      assume "w \<in> set (planLoop (Suc i) cp pd d)"
      with 1(1) [OF conjunct1 [OF True] refl _ _] next_ret True show ?thesis by simp
    qed
  qed
qed

lemma rejected_window_raises:
  assumes "w \<in> set (plan s f (getDuration E f))"
    and "\<forall>fs0. exec E (ffmpegArgs (encodingMode s) w (outputName (file_name f) (index w))) fs0 = None"
  shows "threw (tryBody E s f st)"
proof -
  obtain cp pd where pp: "planParams s f (getDuration E f) = (cp, pd)"
    by (cases "planParams s f (getDuration E f)")
  from assms(1) have w: "w \<in> set (planLoop 0 cp pd (getDuration E f))"
    by (simp add: plan_def pp)
  have "threw (splitLoop E (encodingMode s) f (getDuration E f) cp pd 0 [] st2)" for st2
  proof (cases "splitLoop E (encodingMode s) f (getDuration E f) cp pd 0 [] st2")
    case (Threw x)
    then show ?thesis by simp
  next
    case (Returned r)
    from splitLoop_Returned_accepted [OF this w] assms(2) show ?thesis by simp
  qed
  then have "splitLoop E (encodingMode s) f (getDuration E f) cp pd 0 [] st2 \<noteq> Returned r"
    for st2 r by (metis threw.simps(2))
  then show ?thesis
    by (auto simp: tryBody_def Let_def pp split: option.splits outcome.splits prod.splits)
qed


section \<open>The claims about the run\<close>

text \<open>With a duration of zero the first window already has a non-positive duration.\<close>

lemma planLoop_zero: "planLoop 0 cp pd 0 = []"
  by (rule planLoop_stop) (simp add: windowAt_def Let_def)

lemma plan_zero: "plan s f 0 = []"
  by (cases "planParams s f 0") (simp add: plan_def planLoop_zero)

text \<open>
  Claim C5 as stated does not hold. With the initial settings and a probe that answers 0,
  the plan is empty, the \<open>try\<close> block does not raise, and the run ends with an empty error
  message, the status \<open>Done!\<close> and an empty result list: no error is signalled.
\<close>

theorem zero_duration_completes_counterexample:
  "getDuration (countingEnv 0 0) clip = 0
   \<and> valid_spec defaults
   \<and> plan defaults clip 0 = []
   \<and> \<not> threw (tryBody (countingEnv 0 0) defaults clip
          (setResultFiles [] (setError '''' (setProcessing True initialApp))))
   \<and> error (splitMedia (countingEnv 0 0) defaults (Some clip) initialApp) = ''''
   \<and> status (splitMedia (countingEnv 0 0) defaults (Some clip) initialApp) = Done
   \<and> resultFiles (splitMedia (countingEnv 0 0) defaults (Some clip) initialApp) = []"
  by (simp add: splitMedia_def tryBody_def countingEnv_def defaults_def clip_def initialApp_def
      valid_spec_def setStatus_def setProgress_def setError_def setProcessing_def
      setResultFiles_def submitted_def plan_def planParams_def planLoop.simps splitLoop.simps
      windowAt_def Let_def)

text \<open>
  Claim C5, amended. For settings within the minimums and a file of any size, when the probe
  answers 0 the plan is empty and no error is signalled: once the file has been read and
  written to the engine, the run ends with an empty result list, an empty error message, the
  status \<open>Done!\<close> and progress 100, and submits no command.
\<close>

theorem zero_duration_completes:
  assumes "valid_spec s" and "getDuration E f = 0"
    and "fetchFile E f = Some data" and "writeFile E ''input'' data (fs st) = Some fs'"
  shows "plan s f 0 = []
    \<and> resultFiles (splitMedia E s (Some f) st) = []
    \<and> error (splitMedia E s (Some f) st) = ''''
    \<and> status (splitMedia E s (Some f) st) = Done
    \<and> progress (splitMedia E s (Some f) st) = 100
    \<and> \<not> processing (splitMedia E s (Some f) st)
    \<and> execCalls (trace (splitMedia E s (Some f) st)) = execCalls (trace st)"
proof -
  let ?st0 = "setResultFiles [] (setError '''' (setProcessing True st))"
  let ?st2 = "setStatus AnalyzingDuration ((setStatus ReadingMediaFile ?st0)\<lparr>fs := fs'\<rparr>)"
  obtain cp pd where pp: "planParams s f 0 = (cp, pd)" by (cases "planParams s f 0")
  have loop: "splitLoop E (encodingMode s) f 0 cp pd 0 [] ?st2 = Returned ([], ?st2)"
    by (rule splitLoop_stop) (simp add: windowAt_def Let_def)
  have "fs (setStatus ReadingMediaFile ?st0) = fs st"
    by (simp add: setStatus_def setResultFiles_def setError_def setProcessing_def)
  then have body: "tryBody E s f ?st0 =
      Returned (setProgress 100 (setStatus Done (setResultFiles [] ?st2)))"
    using assms(2-4) pp loop by (simp add: tryBody_def Let_def)
  have fin: "splitMedia E s (Some f) st =
      setProcessing False (setProgress 100 (setStatus Done (setResultFiles [] ?st2)))"
    by (simp add: splitMedia_def Let_def body)
  show ?thesis
    unfolding fin
    by (simp add: plan_zero setProcessing_def setProgress_def setStatus_def setResultFiles_def
        setError_def execCalls_append)
qed

theorem zero_duration_completes_witness:
  "valid_spec (defaults\<lparr>splitMode := TimeMode\<rparr>)
   \<and> getDuration (countingEnv 0 0) clip = 0
   \<and> fetchFile (countingEnv 0 0) clip = Some (file_size clip)
   \<and> writeFile (countingEnv 0 0) ''input'' (file_size clip) (fs initialApp) = Some 0
   \<and> plan (defaults\<lparr>splitMode := TimeMode\<rparr>) clip 0 = []
   \<and> resultFiles (splitMedia (countingEnv 0 0) (defaults\<lparr>splitMode := TimeMode\<rparr>)
        (Some clip) initialApp) = []
   \<and> error (splitMedia (countingEnv 0 0) (defaults\<lparr>splitMode := TimeMode\<rparr>)
        (Some clip) initialApp) = ''''
   \<and> status (splitMedia (countingEnv 0 0) (defaults\<lparr>splitMode := TimeMode\<rparr>)
        (Some clip) initialApp) = Done"
proof -
  have v: "valid_spec (defaults\<lparr>splitMode := TimeMode\<rparr>)"
    by (simp add: valid_spec_def defaults_def)
  have d: "getDuration (countingEnv 0 0) clip = 0" by (simp add: countingEnv_def)
  have fe: "fetchFile (countingEnv 0 0) clip = Some (file_size clip)"
    by (simp add: countingEnv_def)
  have wr: "writeFile (countingEnv 0 0) ''input'' (file_size clip) (fs initialApp) = Some 0"
    by (simp add: countingEnv_def initialApp_def)
  from zero_duration_completes [OF v d fe wr] v d fe wr show ?thesis by simp
qed

text \<open>
  Claim C6. When the \<open>try\<close> block raises (a rejected engine call is the only way to
  raise, whichever window is being processed; by \<open>rejected_window_raises\<close> a command the
  engine rejects is enough), the run ends with an empty result list, whatever artifacts the
  loop had made; with the one message of the \<open>catch\<close> clause; with the processing flag
  cleared; and the commands it submitted are those of the first \<open>m\<close> planned windows,
  each once and in order, so no window is submitted again.
\<close>

theorem engine_failure_aborts:
  assumes "threw (tryBody E s f (setResultFiles [] (setError '''' (setProcessing True st))))"
  shows "resultFiles (splitMedia E s (Some f) st) = []
    \<and> error (splitMedia E s (Some f) st)
         = ''An error occurred. Please check if the file format is valid.''
    \<and> \<not> processing (splitMedia E s (Some f) st)
    \<and> (\<exists>m \<le> length (plan s f (getDuration E f)).
          execCalls (trace (splitMedia E s (Some f) st)) = execCalls (trace st) @
            map (\<lambda>w. ffmpegArgs (encodingMode s) w (outputName (file_name f) (index w)))
              (take m (plan s f (getDuration E f))))"
proof -
  from splitMedia_outcome [of s f E st]
  obtain m where m: "m \<le> length (plan s f (getDuration E f))"
    and r: "(\<exists>st'. tryBody E s f (setResultFiles [] (setError '''' (setProcessing True st)))
                    = Returned st')
      \<or> error (splitMedia E s (Some f) st)
            = ''An error occurred. Please check if the file format is valid.''
        \<and> resultFiles (splitMedia E s (Some f) st) = []"
    and e: "execCalls (trace (splitMedia E s (Some f) st)) = execCalls (trace st) @
       map (\<lambda>w. ffmpegArgs (encodingMode s) w (outputName (file_name f) (index w)))
         (take m (plan s f (getDuration E f)))"
    and p: "\<not> processing (splitMedia E s (Some f) st)"
    by blast
  from r assms
  have "error (splitMedia E s (Some f) st)
            = ''An error occurred. Please check if the file format is valid.''
        \<and> resultFiles (splitMedia E s (Some f) st) = []"
    by auto
  with m e p show ?thesis by blast
qed

text \<open>Three parts of a 90 second file, the second command rejected: two commands were
  submitted, the artifact of the first window is not in the result.\<close>

theorem engine_failure_aborts_witness:
  "threw (tryBody (countingEnv 90 2) (defaults\<lparr>parts := 3\<rparr>) clip
      (setResultFiles [] (setError '''' (setProcessing True initialApp))))
   \<and> length (plan (defaults\<lparr>parts := 3\<rparr>) clip 90) = 3
   \<and> resultFiles (splitMedia (countingEnv 90 2) (defaults\<lparr>parts := 3\<rparr>) (Some clip) initialApp) = []
   \<and> error (splitMedia (countingEnv 90 2) (defaults\<lparr>parts := 3\<rparr>) (Some clip) initialApp)
        = ''An error occurred. Please check if the file format is valid.''
   \<and> \<not> processing (splitMedia (countingEnv 90 2) (defaults\<lparr>parts := 3\<rparr>) (Some clip) initialApp)
   \<and> length (execCalls (trace
        (splitMedia (countingEnv 90 2) (defaults\<lparr>parts := 3\<rparr>) (Some clip) initialApp))) = 2"
proof -
  have t: "threw (tryBody (countingEnv 90 2) (defaults\<lparr>parts := 3\<rparr>) clip
      (setResultFiles [] (setError '''' (setProcessing True initialApp))))"
    by (simp add: tryBody_def countingEnv_def defaults_def clip_def initialApp_def
      setStatus_def setProgress_def setError_def setProcessing_def
      setResultFiles_def submitted_def planParams_def splitLoop.simps
      windowAt_def Let_def)
  have l: "length (plan (defaults\<lparr>parts := 3\<rparr>) clip 90) = 3"
    by (simp add: plan_def planParams_def defaults_def planLoop.simps windowAt_def Let_def)
  have c: "length (execCalls (trace
        (splitMedia (countingEnv 90 2) (defaults\<lparr>parts := 3\<rparr>) (Some clip) initialApp))) = 2"
    by (simp add: splitMedia_def tryBody_def countingEnv_def defaults_def clip_def initialApp_def
      setStatus_def setProgress_def setError_def setProcessing_def
      setResultFiles_def submitted_def planParams_def splitLoop.simps
      windowAt_def Let_def)
  from engine_failure_aborts [OF t] t l c show ?thesis by blast
qed








text \<open>
  Claim C8. In fast (stream copy) mode, the commands submitted are, for the planned windows
  in order, \<open>-ss start -i input -t actualDuration -c copy -avoid_negative_ts make_zero
  -movflags +faststart outputName\<close>; a run that ends without error submits one for every
  planned window.
\<close>

theorem stream_copy_command:
  assumes "encodingMode s = Fast"
  shows "\<exists>m \<le> length (plan s f (getDuration E f)).
     execCalls (trace (splitMedia E s (Some f) st)) =
       execCalls (trace st) @
       map (\<lambda>w. [Str ''-ss'', Num (start w), Str ''-i'', Str ''input'',
                  Str ''-t'', Num (actualDuration w),
                  Str ''-c'', Str ''copy'', Str ''-avoid_negative_ts'', Str ''make_zero'',
                  Str ''-movflags'', Str ''+faststart'',
                  Str (outputName (file_name f) (index w))])
         (take m (plan s f (getDuration E f)))
     \<and> (error (splitMedia E s (Some f) st) = '''' \<longrightarrow> m = length (plan s f (getDuration E f)))"
proof -
  from splitMedia_outcome [of s f E st]
  obtain m where m: "m \<le> length (plan s f (getDuration E f))"
    and r: "error (splitMedia E s (Some f) st) = '''' \<and> m = length (plan s f (getDuration E f))
      \<or> error (splitMedia E s (Some f) st)
            = ''An error occurred. Please check if the file format is valid.''"
    and e: "execCalls (trace (splitMedia E s (Some f) st)) = execCalls (trace st) @
       map (\<lambda>w. ffmpegArgs (encodingMode s) w (outputName (file_name f) (index w)))
         (take m (plan s f (getDuration E f)))"
    by blast
  from r have "error (splitMedia E s (Some f) st) = '''' \<longrightarrow> m = length (plan s f (getDuration E f))"
    by auto
  with m e show ?thesis
    unfolding assms ffmpegArgs_def by (intro exI [of _ m]) simp
qed

theorem stream_copy_command_witness:
  "encodingMode (defaults\<lparr>encodingMode := Fast\<rparr>) = Fast
   \<and> execCalls (trace (splitMedia (countingEnv 120 0) (defaults\<lparr>encodingMode := Fast\<rparr>)
        (Some clip) initialApp)) =
      [[Str ''-ss'', Num 0, Str ''-i'', Str ''input'', Str ''-t'', Num 60,
        Str ''-c'', Str ''copy'', Str ''-avoid_negative_ts'', Str ''make_zero'',
        Str ''-movflags'', Str ''+faststart'', Str ''1_clip_1.mp4''],
       [Str ''-ss'', Num 60, Str ''-i'', Str ''input'', Str ''-t'', Num 60,
        Str ''-c'', Str ''copy'', Str ''-avoid_negative_ts'', Str ''make_zero'',
        Str ''-movflags'', Str ''+faststart'', Str ''2_clip_2.mp4'']]"
proof -
  let ?s = "defaults\<lparr>encodingMode := Fast\<rparr>"
  let ?fin = "splitMedia (countingEnv 120 0) ?s (Some clip) initialApp"
  have f: "encodingMode ?s = Fast" by simp
  have g: "getDuration (countingEnv 120 0) clip = 120" by (simp add: countingEnv_def)
  have e: "error ?fin = ''''"
    by (simp add: splitMedia_def tryBody_def countingEnv_def defaults_def clip_def initialApp_def
      setStatus_def setProgress_def setError_def setProcessing_def
      setResultFiles_def submitted_def planParams_def splitLoop.simps
      windowAt_def Let_def)
  have p: "plan ?s clip 120 =
      [\<lparr>index = 0, start = 0, actualDuration = 60\<rparr>, \<lparr>index = 1, start = 60, actualDuration = 60\<rparr>]"
    by (simp add: plan_def planParams_def defaults_def planLoop.simps windowAt_def Let_def)
  have n: "outputName (file_name clip) 0 = ''1_clip_1.mp4''"
    "outputName (file_name clip) 1 = ''2_clip_2.mp4''"
    by (simp_all add: outputName_def baseName_def fileExt_def clip_def)
  from stream_copy_command [OF f, of clip "countingEnv 120 0" initialApp]
  obtain m where "execCalls (trace ?fin) =
       execCalls (trace initialApp) @
       map (\<lambda>w. [Str ''-ss'', Num (start w), Str ''-i'', Str ''input'',
                  Str ''-t'', Num (actualDuration w),
                  Str ''-c'', Str ''copy'', Str ''-avoid_negative_ts'', Str ''make_zero'',
                  Str ''-movflags'', Str ''+faststart'',
                  Str (outputName (file_name clip) (index w))])
         (take m (plan ?s clip 120))"
     and "error ?fin = '''' \<longrightarrow> m = length (plan ?s clip 120)"
    unfolding g by blast
  with e p n have "execCalls (trace ?fin) =
      [[Str ''-ss'', Num 0, Str ''-i'', Str ''input'', Str ''-t'', Num 60,
        Str ''-c'', Str ''copy'', Str ''-avoid_negative_ts'', Str ''make_zero'',
        Str ''-movflags'', Str ''+faststart'', Str ''1_clip_1.mp4''],
       [Str ''-ss'', Num 60, Str ''-i'', Str ''input'', Str ''-t'', Num 60,
        Str ''-c'', Str ''copy'', Str ''-avoid_negative_ts'', Str ''make_zero'',
        Str ''-movflags'', Str ''+faststart'', Str ''2_clip_2.mp4'']]"
    by (simp add: initialApp_def)
  with f show ?thesis by simp
qed

text \<open>When the pattern does not occur before the end of the name, replacing its first
  occurrence removes the end; and after the last separator \<open>split\<close> and \<open>pop\<close> give
  the extension. So for a name \<open>base.ext\<close> in which \<open>.ext\<close> does not occur earlier, the
  artifacts are named after \<open>base\<close> and \<open>ext\<close>.\<close>

lemma js_replace_last:
  assumes "pat \<noteq> []"
    and "\<forall>j < length base. take (length pat) (drop j (base @ pat)) \<noteq> pat"
  shows "js_replace pat [] (base @ pat) = base"
  using assms(2)
proof (induction base)
  case Nil
  from assms(1) obtain x xs where "pat = x # xs" by (cases pat) auto
  then show ?case by simp
next
  case (Cons b base)
  from Cons.prems have here: "take (length pat) ((b # base) @ pat) \<noteq> pat"
    by (metis drop0 length_greater_0_conv list.distinct(1))
  have "\<forall>j < length base. take (length pat) (drop j (base @ pat)) \<noteq> pat"
  proof (intro allI impI)
    fix j assume "j < length base"
    with Cons.prems have "take (length pat) (drop (Suc j) ((b # base) @ pat)) \<noteq> pat"
      by (metis Suc_less_eq length_Cons)
    then show "take (length pat) (drop j (base @ pat)) \<noteq> pat" by simp
  qed
  with Cons.IH have "js_replace pat [] (base @ pat) = base" by simp
  with here show ?case by simp
qed

lemma pop_snoc: "pop (ys @ [e]) = Some e"
proof (induction ys)
  case Nil
  then show ?case by simp
next
  case (Cons y ys)
  then show ?case by (cases "ys @ [e]") auto
qed

lemma js_split_last:
  "c \<notin> set ext \<Longrightarrow> \<exists>ys. js_split c (xs @ c # ext) = ys @ [ext] \<and> ys \<noteq> []"
proof (induction xs)
  case Nil
  then have "js_split c ([] @ c # ext) = [[]] @ [ext]" by (simp add: js_split_no_sep)
  then show ?case by blast
next
  case (Cons x xs)
  then obtain ys where ys: "js_split c (xs @ c # ext) = ys @ [ext]" "ys \<noteq> []" by blast
  then obtain y ys' where y: "ys = y # ys'" by (cases ys) auto
  show ?case
  proof (cases "x = c")
    case True
    then have "js_split c ((x # xs) @ c # ext) = ([] # ys) @ [ext]" by (simp add: ys)
    then show ?thesis by blast
  next
    case False
    then have "js_split c ((x # xs) @ c # ext) = ((x # y) # ys') @ [ext]" by (simp add: ys y)
    then show ?thesis by blast
  qed
qed

lemma pop_js_split_last:
  "c \<notin> set ext \<Longrightarrow> pop (js_split c (xs @ c # ext)) = Some ext"
  using js_split_last [of c ext xs] by (auto simp: pop_snoc)

lemma regular_names:
  assumes "file_name f = base @ ''.'' @ ext" and "CHR ''.'' \<notin> set ext"
    and "\<forall>j < length base. take (Suc (length ext)) (drop j (base @ ''.'' @ ext)) \<noteq> ''.'' @ ext"
  shows "\<forall>k < length (resultFiles (splitMedia E s (Some f) st)).
          art_name (resultFiles (splitMedia E s (Some f) st) ! k) =
            toString_nat (k + 1) @ ''_'' @ base @ ''_'' @ toString_nat (k + 1) @ ''.'' @ ext"
proof -
  have e: "fileExt (file_name f) = ext"
    using assms(2) by (simp add: fileExt_def assms(1) pop_js_split_last)
  have "js_replace (''.'' @ ext) [] (base @ (''.'' @ ext)) = base"
    using assms(3) by (intro js_replace_last) simp_all
  then have b: "baseName (file_name f) = base"
    unfolding baseName_def e unfolding assms(1) by simp
  show ?thesis
    using splitMedia_names [of E s f st] by (simp add: outputName_def e b)
qed

text \<open>
  Claim C9 says that the artifact of window \<open>i\<close> is named \<open>{i+1}_{baseName}_{i+1}.{ext}\<close>
  for the base name and the extension of the input file. The program does so for
  \<open>talk.final.mov\<close>. For \<open>my.mp4.video.mp4\<close>, whose base name is \<open>my.mp4.video\<close>, it
  does not: \<open>replace\<close> removes the first \<open>.mp4\<close>, the program's \<open>baseName\<close> is
  \<open>my.video.mp4\<close>, and the two artifacts of a run of two parts are named
  \<open>1_my.video.mp4_1.mp4\<close> and \<open>2_my.video.mp4_2.mp4\<close>.
\<close>

theorem first_occurrence_names:
  "outputName (file_name regular) 0 = ''1_talk.final_1.mov''
   \<and> fileExt (file_name dotted) = ''mp4''
   \<and> baseName (file_name dotted) = ''my.video.mp4''
   \<and> length (resultFiles (splitMedia (countingEnv 120 0) defaults (Some dotted) initialApp)) = 2
   \<and> art_name (resultFiles (splitMedia (countingEnv 120 0) defaults (Some dotted) initialApp) ! 0)
        = ''1_my.video.mp4_1.mp4''
   \<and> art_name (resultFiles (splitMedia (countingEnv 120 0) defaults (Some dotted) initialApp) ! 1)
        = ''2_my.video.mp4_2.mp4''
   \<and> ''1_my.video.mp4_1.mp4'' \<noteq> ''1_my.mp4.video_1.mp4''"
proof -
  let ?fin = "splitMedia (countingEnv 120 0) defaults (Some dotted) initialApp"
  have e: "fileExt (file_name dotted) = ''mp4''"
    by (simp add: fileExt_def dotted_def)
  have b: "baseName (file_name dotted) = ''my.video.mp4''"
    unfolding baseName_def e by (simp add: dotted_def)
  have len: "length (resultFiles ?fin) = 2"
    by (simp add: splitMedia_def tryBody_def countingEnv_def defaults_def dotted_def initialApp_def
      setStatus_def setProgress_def setError_def setProcessing_def
      setResultFiles_def submitted_def planParams_def splitLoop.simps
      windowAt_def Let_def)
  from splitMedia_names [of "countingEnv 120 0" defaults dotted initialApp] len
  have "art_name (resultFiles ?fin ! 0) = outputName (file_name dotted) 0"
    "art_name (resultFiles ?fin ! 1) = outputName (file_name dotted) 1"
    by simp_all
  then have "art_name (resultFiles ?fin ! 0) = ''1_my.video.mp4_1.mp4''"
    "art_name (resultFiles ?fin ! 1) = ''2_my.video.mp4_2.mp4''"
    unfolding outputName_def e b by simp_all
  moreover have "outputName (file_name regular) 0 = ''1_talk.final_1.mov''"
    by (simp add: outputName_def baseName_def fileExt_def regular_def)
  ultimately show ?thesis using e b len by simp
qed

text \<open>
  Claim C10. For a file name without a dot, \<open>fileExt\<close> is the whole name, \<open>baseName\<close> is
  the name unchanged, and the artifact at position \<open>k\<close> is named
  \<open>{k+1}_{fileName}_{k+1}.{fileName}\<close>.
\<close>

theorem no_dot_names:
  assumes "CHR ''.'' \<notin> set (file_name f)"
  shows "fileExt (file_name f) = file_name f
    \<and> baseName (file_name f) = file_name f
    \<and> (\<forall>k < length (resultFiles (splitMedia E s (Some f) st)).
          art_name (resultFiles (splitMedia E s (Some f) st) ! k) =
            toString_nat (k + 1) @ ''_'' @ file_name f @ ''_'' @ toString_nat (k + 1) @
            ''.'' @ file_name f)"
proof -
  have e: "fileExt (file_name f) = file_name f"
    using assms by (simp add: fileExt_def js_split_no_sep)
  have b: "baseName (file_name f) = file_name f"
    unfolding baseName_def e using assms by (simp add: js_replace_absent)
  show ?thesis
    using splitMedia_names [of E s f st] unfolding outputName_def e b by (simp add: e b)
qed

theorem no_dot_names_witness:
  "CHR ''.'' \<notin> set (file_name noext)
   \<and> fileExt (file_name noext) = ''clip'' \<and> baseName (file_name noext) = ''clip''
   \<and> length (resultFiles (splitMedia (countingEnv 120 0) defaults (Some noext) initialApp)) = 2
   \<and> art_name (resultFiles (splitMedia (countingEnv 120 0) defaults (Some noext) initialApp) ! 0)
        = ''1_clip_1.clip''
   \<and> art_name (resultFiles (splitMedia (countingEnv 120 0) defaults (Some noext) initialApp) ! 1)
        = ''2_clip_2.clip''"
proof -
  let ?fin = "splitMedia (countingEnv 120 0) defaults (Some noext) initialApp"
  have h: "CHR ''.'' \<notin> set (file_name noext)" by (simp add: noext_def)
  have nm: "file_name noext = ''clip''" by (simp add: noext_def)
  have len: "length (resultFiles ?fin) = 2"
    by (simp add: splitMedia_def tryBody_def countingEnv_def defaults_def noext_def initialApp_def
      setStatus_def setProgress_def setError_def setProcessing_def
      setResultFiles_def submitted_def planParams_def splitLoop.simps
      windowAt_def Let_def)
  note a = no_dot_names [OF h, of "countingEnv 120 0" defaults initialApp]
  from a len have
    "art_name (resultFiles ?fin ! 0) = toString_nat (0 + 1) @ ''_'' @ file_name noext
        @ ''_'' @ toString_nat (0 + 1) @ ''.'' @ file_name noext"
    "art_name (resultFiles ?fin ! 1) = toString_nat (1 + 1) @ ''_'' @ file_name noext
        @ ''_'' @ toString_nat (1 + 1) @ ''.'' @ file_name noext"
    by simp_all
  then have "art_name (resultFiles ?fin ! 0) = ''1_clip_1.clip''"
    "art_name (resultFiles ?fin ! 1) = ''2_clip_2.clip''"
    unfolding nm by simp_all
  with a h len nm show ?thesis by simp
qed

end
